theory Spec2Isabelle
  imports Main
begin

section \<open>Remini: a Gemini gateway to Reddit (remini.py)\<close>

text \<open>
  A shallow embedding of \<^verbatim>\<open>remini.py\<close>.  Python strings are modelled as \<^typ>\<open>string\<close>
  (one \<^typ>\<open>char\<close> per code point below 256), \<^verbatim>\<open>bytes\<close> likewise (\<^verbatim>\<open>str.encode\<close> is the
  identity on them).  An exception is a value \<open>Inl e\<close> of a sum type.  Everything the module
  takes from outside its own text (environment variables, the landing page file, the standard
  library's \<^verbatim>\<open>unquote\<close> and \<^verbatim>\<open>urlparse\<close>, \<^verbatim>\<open>md2gemini\<close>, \<^verbatim>\<open>strftime\<close>, and the objects the Reddit
  client returns) is a field of an explicit environment record, so that the theorems hold for
  every behaviour of those collaborators.  Logging has no effect on results and is left out.
\<close>

subsection \<open>Python string methods\<close>

text \<open>\<^verbatim>\<open>str.isspace\<close> for one character, restricted to code points below 256.\<close>

definition isspace :: "char \<Rightarrow> bool" where
  "isspace c = (of_char c \<in> set [9, 10, 11, 12, 13, 28, 29, 30, 31, 32, 133, 160 :: nat])"

text \<open>\<^verbatim>\<open>s.strip()\<close>: whitespace removed at both ends.\<close>

definition str_strip :: "string \<Rightarrow> string" where
  "str_strip s = rev (dropWhile isspace (rev (dropWhile isspace s)))"

text \<open>\<^verbatim>\<open>s.lstrip(chars)\<close>, \<^verbatim>\<open>s.rstrip(chars)\<close>, \<^verbatim>\<open>s.strip(chars)\<close>: \<open>chars\<close> is a set of characters,
  not a prefix or suffix.\<close>

definition str_lstrip :: "string \<Rightarrow> string \<Rightarrow> string" where
  "str_lstrip chars s = dropWhile (\<lambda>c. c \<in> set chars) s"

definition str_rstrip :: "string \<Rightarrow> string \<Rightarrow> string" where
  "str_rstrip chars s = rev (dropWhile (\<lambda>c. c \<in> set chars) (rev s))"

definition str_strip_chars :: "string \<Rightarrow> string \<Rightarrow> string" where
  "str_strip_chars chars s = str_rstrip chars (str_lstrip chars s)"

text \<open>\<^verbatim>\<open>s.split(sep)\<close> for a one-character separator.  The result is never empty (lemma
  \<open>str_split_not_Nil\<close>), so the first branch of the \<open>case\<close> is never taken.\<close>

fun str_split :: "char \<Rightarrow> string \<Rightarrow> string list" where
  "str_split sep [] = [[]]"
| "str_split sep (c # cs) =
     (if c = sep then [] # str_split sep cs
      else (case str_split sep cs of [] \<Rightarrow> [[c]] | t # ts \<Rightarrow> (c # t) # ts))"

text \<open>\<^verbatim>\<open>sep.join(xs)\<close>.\<close>

fun str_join :: "string \<Rightarrow> string list \<Rightarrow> string" where
  "str_join sep [] = []"
| "str_join sep [x] = x"
| "str_join sep (x # y # ys) = x @ sep @ str_join sep (y # ys)"

text \<open>\<^verbatim>\<open>s.startswith(p)\<close>.\<close>

definition startswith :: "string \<Rightarrow> string \<Rightarrow> bool" where
  "startswith s p = (take (length p) s = p)"

text \<open>\<^verbatim>\<open>str(n)\<close> for an integer, as an f-string renders it.\<close>

fun str_nat :: "nat \<Rightarrow> string" where
  "str_nat n =
     (if n < 10 then [''0123456789'' ! n]
      else str_nat (n div 10) @ [''0123456789'' ! (n mod 10)])"

declare str_nat.simps [simp del]

definition str_int :: "int \<Rightarrow> string" where
  "str_int i = (if i < 0 then CHR ''-'' # str_nat (nat (- i)) else str_nat (nat i))"

text \<open>\<^verbatim>\<open>xs[-2:]\<close>: the last two elements, or all of a shorter list.\<close>

definition last_two :: "'a list \<Rightarrow> 'a list" where
  "last_two xs = drop (length xs - 2) xs"

subsection \<open>Exceptions and the module's constants\<close>

datatype error = IndexError | ValueError string | OSError

definition ITEM_LIMIT :: nat where
  "ITEM_LIMIT = 25"

definition DATE_FMT :: string where
  "DATE_FMT = ''%d/%m/%Y''"

definition DATETIME_FMT :: string where
  "DATETIME_FMT = DATE_FMT @ '' at %H:%M UTC''"

definition REDDIT_DOMAINS :: "string list list" where
  "REDDIT_DOMAINS = [[''redd'', ''it''], [''reddit'', ''com'']]"

definition CRLF :: string where
  "CRLF = [CHR 0x0D, CHR 0x0A]"

definition LF :: string where
  "LF = [CHR 0x0A]"

subsection \<open>The objects of the Reddit client\<close>

text \<open>
  The attributes the formatters read.  An author that cannot be read (\<^verbatim>\<open>AttributeError\<close>) is
  \<open>None\<close>.  A comment forest (\<^verbatim>\<open>submission.comments\<close>, \<^verbatim>\<open>comment.replies\<close>) is the list of its
  top-level comments: it supports \<^verbatim>\<open>len\<close> and slicing.
\<close>

datatype comment = Comment
  (c_author: "string option")
  (c_created_utc: int)
  (c_edited: bool)
  (c_body: string)
  (c_permalink: string)
  (c_parent_id: string)
  (c_score: int)
  (c_submission_title: string)
  (c_replies: "comment list")

record submission =
  sm_title :: string
  sm_url :: string
  sm_permalink :: string
  sm_author :: "string option"
  sm_created_utc :: int
  sm_edited :: bool
  sm_score :: int
  sm_num_comments :: int
  sm_selftext :: string
  sm_comments :: "comment list"

text \<open>Each listing of a subreddit is held in full; \<^verbatim>\<open>subreddit.hot(limit=n)\<close> yields its first
  \<open>n\<close> entries.\<close>

record subreddit =
  sr_display_name :: string
  sr_created_utc :: int
  sr_subscribers :: int
  sr_hot :: "submission list"
  sr_top :: "submission list"
  sr_new :: "submission list"
  sr_controversial :: "submission list"

text \<open>\<^verbatim>\<open>is_suspended\<close> is \<open>None\<close> when the attribute is absent (\<^verbatim>\<open>AttributeError\<close>, caught by
  \<^verbatim>\<open>display_redditor\<close>).\<close>

record redditor =
  rd_name :: string
  rd_is_suspended :: "bool option"
  rd_created_utc :: int
  rd_link_karma :: int
  rd_comment_karma :: int
  rd_submissions :: "submission list"
  rd_comments :: "comment list"

text \<open>
  A listing call such as \<^verbatim>\<open>subreddit.hot(limit=25)\<close> returns a PRAW \<^verbatim>\<open>ListingGenerator\<close>: an
  iterator object.  Its class defines neither \<^verbatim>\<open>__bool__\<close> nor \<^verbatim>\<open>__len__\<close>, so Python's truth
  test of it is \<open>True\<close> whatever it is going to yield.
\<close>

datatype 'a listing_generator = ListingGenerator (yields: "'a list")

definition listing :: "nat \<Rightarrow> 'a list \<Rightarrow> 'a listing_generator" where
  "listing limit xs = ListingGenerator (take limit xs)"

definition generator_truth :: "'a listing_generator \<Rightarrow> bool" where
  "generator_truth g = True"

subsection \<open>The environment\<close>

record parse_result =
  pr_scheme :: string
  pr_netloc :: string
  pr_path :: string
  pr_query :: string

text \<open>
  \<open>BASE_URL\<close> and \<open>LANDING_PAGE\<close> are the environment variables of the same names (the second
  optional); \<open>read_lines\<close> is \<^verbatim>\<open>open(p).readlines()\<close>, \<open>None\<close> when the file cannot be read;
  \<open>strftime fmt t\<close> is \<^verbatim>\<open>datetime.utcfromtimestamp(t).strftime(fmt)\<close>; the four \<open>reddit_\<close> fields
  are the client's lookups, taken as reliable.  The library functions are taken as total:
  the \<^verbatim>\<open>ValueError\<close> of \<^verbatim>\<open>urlparse\<close> on an unbalanced bracket in the network location, and
  that of \<^verbatim>\<open>utcfromtimestamp\<close> on a time out of range, are outside the model.
\<close>

record env =
  BASE_URL :: string
  LANDING_PAGE :: "string option"
  read_lines :: "string \<Rightarrow> string list option"
  unquote :: "string \<Rightarrow> string"
  urlparse :: "string \<Rightarrow> parse_result"
  md2gemini :: "string \<Rightarrow> string"
  strftime :: "string \<Rightarrow> int \<Rightarrow> string"
  reddit_subreddit :: "string \<Rightarrow> subreddit"
  reddit_submission :: "string \<Rightarrow> submission"
  reddit_comment :: "string \<Rightarrow> comment"
  reddit_redditor :: "string \<Rightarrow> redditor"

subsection \<open>Responses\<close>

definition ok :: "string list \<Rightarrow> bool \<Rightarrow> string" where
  "ok lines join_on_newline =
     (let content = (if join_on_newline then str_join LF lines else concat lines)
      in ''20 text/gemini'' @ CRLF @ content @ LF)"

definition bad_request :: "string \<Rightarrow> string" where
  "bad_request msg = ''59 '' @ msg @ CRLF"

definition get_input :: "string \<Rightarrow> string" where
  "get_input msg = ''10 '' @ msg @ CRLF"

definition redirect :: "string \<Rightarrow> bool \<Rightarrow> string" where
  "redirect url perm = (if perm then ''31'' else ''30'') @ '' '' @ url @ CRLF"

subsection \<open>The router\<close>

text \<open>
  \<^verbatim>\<open>handle_request\<close> returns \<^verbatim>\<open>Union[bytes, bool]\<close>.  Its live branches call the page formatters,
  which call \<^verbatim>\<open>parse_reddit_url\<close>, which calls \<^verbatim>\<open>handle_request\<close> again with \<^verbatim>\<open>check_only=True\<close>.
  The cycle is cut by handing the four formatters to the router as an argument; they are
  bound to the real ones in \<open>remini_pages\<close> below.
\<close>

datatype outcome = PyBool bool | PyBytes string

record pages =
  page_comment :: "string \<Rightarrow> error + string list"
  page_submission :: "string \<Rightarrow> error + string list"
  page_subreddit :: "string \<Rightarrow> string \<Rightarrow> int \<Rightarrow> error + string list"
  page_redditor :: "string \<Rightarrow> error + string list"

text \<open>\<^verbatim>\<open>ok(display_x(...))\<close>: an exception of the formatter propagates.\<close>

definition ok_page :: "error + string list \<Rightarrow> error + outcome" where
  "ok_page r = (case r of Inl e \<Rightarrow> Inl e | Inr lines \<Rightarrow> Inr (PyBytes (ok lines True)))"

definition handle_r :: "env \<Rightarrow> pages \<Rightarrow> string list \<Rightarrow> string \<Rightarrow> string \<Rightarrow> bool \<Rightarrow> error + outcome" where
  "handle_r E D tokens path query check_only =
     (if 5 \<le> length tokens \<and> tokens ! 1 = ''comments'' then
        (let comment_id = tokens ! 4 in
         if check_only then Inr (PyBool True)
         else ok_page (page_comment D comment_id))
      else if 3 \<le> length tokens \<and> tokens ! 1 = ''comments'' then
        (let submission_id = tokens ! 2 in
         if check_only then Inr (PyBool True)
         else ok_page (page_submission D submission_id))
      else if length tokens = 1 then
        (let name = tokens ! 0 in
         if check_only then Inr (PyBool True)
         else ok_page (page_subreddit D name ''hot'' 10))
      else if tokens \<noteq> [] then
        (if check_only then Inr (PyBool False)
         else Inr (PyBytes (bad_request (''Request invalid or not supported: '' @ path))))
      else
        (if check_only then Inr (PyBool True)
         else if query \<noteq> [] then Inr (PyBytes (redirect (BASE_URL E @ ''r/'' @ query) True))
         else Inr (PyBytes (get_input ''Enter subreddit name:''))))"

definition handle_u :: "env \<Rightarrow> pages \<Rightarrow> string list \<Rightarrow> string \<Rightarrow> string \<Rightarrow> bool \<Rightarrow> error + outcome" where
  "handle_u E D tokens path query check_only =
     (if tokens \<noteq> [] then
        (if length tokens = 1 then
           (if check_only then Inr (PyBool True)
            else (let name = tokens ! 0 in ok_page (page_redditor D name)))
         else
           (if check_only then Inr (PyBool False)
            else Inr (PyBytes (bad_request (''Request invalid or not supported: '' @ path)))))
      else
        (if check_only then Inr (PyBool True)
         else if query \<noteq> [] then Inr (PyBytes (redirect (BASE_URL E @ ''u/'' @ query) True))
         else Inr (PyBytes (get_input ''Enter Redditor name:''))))"

text \<open>
  Lines 641 to 648 of \<^verbatim>\<open>handle_request\<close>: the token list of a path that is already stripped
  and not empty.  \<^verbatim>\<open>tokens[0]\<close> is read from the result of \<^verbatim>\<open>split\<close>, which is never empty;
  \<^verbatim>\<open>tokens[-1]\<close> raises \<^verbatim>\<open>IndexError\<close> on an empty list.
\<close>

definition request_tokens :: "env \<Rightarrow> string \<Rightarrow> error + string list" where
  "request_tokens E path =
     (let tokens = str_split CHR ''/'' (unquote E path);
          tokens = (if hd tokens = [] then tl tokens else tokens)
      in if tokens = [] then Inl IndexError
         else Inr (if last tokens = [] then butlast tokens else tokens))"

definition handle_request :: "env \<Rightarrow> pages \<Rightarrow> string \<Rightarrow> string \<Rightarrow> bool \<Rightarrow> error + outcome" where
  "handle_request E D path0 query check_only =
     (let path = str_strip_chars ''/'' (str_strip path0) in
      if path = [] then
        (if check_only then Inr (PyBool True)
         else (case LANDING_PAGE E of
                 None \<Rightarrow> Inr (PyBytes (ok [''Remini is working, but no landing page has been set.''] True))
               | Some f \<Rightarrow>
                   if f = [] then
                     Inr (PyBytes (ok [''Remini is working, but no landing page has been set.''] True))
                   else (case read_lines E f of
                           None \<Rightarrow> Inl OSError
                         | Some ls \<Rightarrow> Inr (PyBytes (ok ls False)))))
      else
        (case request_tokens E path of
           Inl e \<Rightarrow> Inl e
         | Inr tokens \<Rightarrow>
             (case tokens of
                [] \<Rightarrow> Inl IndexError
              | cmd # rest \<Rightarrow>
                  if cmd = ''r'' then handle_r E D rest path query check_only
                  else if cmd = ''u'' then handle_u E D rest path query check_only
                  else if check_only then Inr (PyBool False)
                  else Inr (PyBytes (bad_request (''Couldn't parse path \"'' @ path @ ''\".''))))))"

subsection \<open>The URL classifier\<close>

text \<open>
  The formatters handed to the check-only call of \<^verbatim>\<open>parse_reddit_url\<close>: no check-only branch
  calls a formatter (lemma \<open>handle_request_check_only_pages\<close>), so any would do.
\<close>

definition no_pages :: pages where
  "no_pages =
     \<lparr>page_comment = (\<lambda>_. Inr []), page_submission = (\<lambda>_. Inr []),
      page_subreddit = (\<lambda>_ _ _. Inr []), page_redditor = (\<lambda>_. Inr [])\<rparr>"

text \<open>Python's truth test of what \<^verbatim>\<open>handle_request\<close> returns.\<close>

definition outcome_truth :: "outcome \<Rightarrow> bool" where
  "outcome_truth r = (case r of PyBool b \<Rightarrow> b | PyBytes s \<Rightarrow> s \<noteq> [])"

definition parse_reddit_url :: "env \<Rightarrow> string \<Rightarrow> error + string" where
  "parse_reddit_url E url =
     (let parsed = urlparse E url;
          reddit_url =
            (if pr_scheme parsed = [] \<and> pr_netloc parsed = [] then True
             else last_two (str_split CHR ''.'' (pr_netloc parsed)) \<in> set REDDIT_DOMAINS)
      in if reddit_url then
           (case handle_request E no_pages (pr_path parsed) (pr_query parsed) True of
              Inl e \<Rightarrow> Inl e
            | Inr r \<Rightarrow>
                if outcome_truth r then Inr (BASE_URL E @ str_lstrip ''/'' (pr_path parsed))
                else Inr url)
         else Inr url)"

subsection \<open>The markdown adapter\<close>

text \<open>The body of the loop of \<^verbatim>\<open>parse_markdown\<close>, for one line of the converter's output.\<close>

definition parse_markdown_line :: "env \<Rightarrow> string \<Rightarrow> error + string" where
  "parse_markdown_line E line =
     (if startswith line ''#'' \<or> startswith line ''##'' then Inr (''#'' @ line)
      else if startswith line ''=> '' then
        (let tokens = str_split CHR '' '' line in
         if length tokens < 2 then Inl IndexError
         else (case parse_reddit_url E (tokens ! 1) of
                 Inl e \<Rightarrow> Inl e
               | Inr u \<Rightarrow> Inr (str_join '' '' (tokens[1 := u]))))
      else Inr line)"

fun parse_markdown_lines :: "env \<Rightarrow> string list \<Rightarrow> error + string list" where
  "parse_markdown_lines E [] = Inr []"
| "parse_markdown_lines E (line # rest) =
     (case parse_markdown_line E line of
        Inl e \<Rightarrow> Inl e
      | Inr l \<Rightarrow>
          (case parse_markdown_lines E rest of
             Inl e \<Rightarrow> Inl e
           | Inr ls \<Rightarrow> Inr (l # ls)))"

definition parse_markdown :: "env \<Rightarrow> string \<Rightarrow> error + string list" where
  "parse_markdown E md = parse_markdown_lines E (str_split CHR 0x0A (md2gemini E md))"

subsection \<open>Helpers on the client's objects\<close>

text \<open>\<open>edited\<close> is \<open>None\<close> for an object without that attribute (a subreddit, a redditor).\<close>

definition date_time :: "env \<Rightarrow> int \<Rightarrow> bool option \<Rightarrow> bool \<Rightarrow> string" where
  "date_time E created_utc edited date_only =
     (let fmt = (if date_only then DATE_FMT else DATETIME_FMT);
          s = strftime E fmt created_utc
      in if edited = Some True then s @ ''*'' else s)"

definition author :: "string option \<Rightarrow> string" where
  "author a = (case a of Some name \<Rightarrow> name | None \<Rightarrow> ''[deleted]'')"

definition get_submission_url :: "env \<Rightarrow> comment \<Rightarrow> error + string" where
  "get_submission_url E comment =
     parse_reddit_url E
       (str_join ''/'' (butlast (str_split CHR ''/'' (str_rstrip ''/'' (c_permalink comment)))))"

definition get_parent_url :: "env \<Rightarrow> comment \<Rightarrow> error + string \<times> bool" where
  "get_parent_url E comment =
     (let parent_id = c_parent_id comment in
      if startswith parent_id ''t1_'' then
        (let fragments = str_split CHR ''/'' (str_rstrip ''/'' (c_permalink comment));
             fragments = fragments[length fragments - 1 := str_lstrip ''t1_'' parent_id]
         in case parse_reddit_url E (str_join ''/'' fragments) of
              Inl e \<Rightarrow> Inl e
            | Inr u \<Rightarrow> Inr (u, False))
      else if startswith parent_id ''t3_'' then
        (case get_submission_url E comment of
           Inl e \<Rightarrow> Inl e
         | Inr u \<Rightarrow> Inr (u, True))
      else Inl (ValueError (''Bad ID \"'' @ parent_id @ ''\". Expecting it to start with t1_ or t3_.'')))"

subsection \<open>The formatters\<close>

text \<open>The loop \<^verbatim>\<open>for x in xs: lines.extend(summary(x)); lines.append('')\<close>.\<close>

fun extend_summaries ::
  "('a \<Rightarrow> error + string list) \<Rightarrow> 'a list \<Rightarrow> string list \<Rightarrow> error + string list" where
  "extend_summaries summary [] lines = Inr lines"
| "extend_summaries summary (x # xs) lines =
     (case summary x of
        Inl e \<Rightarrow> Inl e
      | Inr ls \<Rightarrow> extend_summaries summary xs (lines @ ls @ ['''']))"

definition submission_summary :: "env \<Rightarrow> submission \<Rightarrow> error + string list" where
  "submission_summary E s =
     (case parse_reddit_url E (sm_url s) of
        Inl e \<Rightarrow> Inl e
      | Inr url \<Rightarrow>
          (let author_name = author (sm_author s);
               timestamp = date_time E (sm_created_utc s) (Some (sm_edited s)) False;
               parsed = urlparse E (sm_url s)
           in case parse_reddit_url E (sm_permalink s) of
                Inl e \<Rightarrow> Inl e
              | Inr comments_url \<Rightarrow>
                  Inr [''=> '' @ url @ '' '' @ sm_title s,
                       ''created by '' @ author_name @ '' on '' @ timestamp @ '' - '' @
                         str_int (sm_score s) @ '' upvotes ('' @ pr_scheme parsed @ '', '' @
                         pr_netloc parsed @ '')'',
                       ''=> '' @ comments_url @ '' '' @ str_int (sm_num_comments s) @
                         '' comments'']))"

definition comment_summary :: "env \<Rightarrow> comment \<Rightarrow> bool \<Rightarrow> error + string list" where
  "comment_summary E comment show_num_replies =
     (let author_name = author (c_author comment);
          timestamp = date_time E (c_created_utc comment) (Some (c_edited comment)) False
      in case parse_markdown E (c_body comment) of
           Inl e \<Rightarrow> Inl e
         | Inr body \<Rightarrow>
             (case parse_reddit_url E (c_permalink comment) of
                Inl e \<Rightarrow> Inl e
              | Inr url \<Rightarrow>
                  (let metadata = str_int (c_score comment) @ '' upvotes'';
                       metadata =
                         (if show_num_replies then
                            metadata @ '', '' @ str_nat (length (c_replies comment)) @
                              '' direct replies''
                          else metadata)
                   in Inr ([''=> '' @ url @ '' Comment by '' @ author_name @ '' at '' @ timestamp,
                            metadata, ''''] @ body))))"

text \<open>In the source the fourth and fifth literals of the header list are adjacent without a
  comma, so Python joins them into the one string \<^verbatim>\<open>## Submissions\<close>. The parameter \<open>limit\<close>
  is not read by the body.\<close>

definition display_subreddit :: "env \<Rightarrow> string \<Rightarrow> string \<Rightarrow> int \<Rightarrow> error + string list" where
  "display_subreddit E name sortby limit =
     (let subreddit = reddit_subreddit E name;
          timestamp = date_time E (sr_created_utc subreddit) None True;
          lines = [''# Subreddit: '' @ sr_display_name subreddit,
                   ''Created on '' @ timestamp @ ''. '' @ str_int (sr_subscribers subreddit) @
                     '' subscribers.'',
                   '''',
                   ''## Submissions'']
      in case (if sortby = ''hot'' then Inr (listing ITEM_LIMIT (sr_hot subreddit))
               else if sortby = ''top'' then Inr (listing ITEM_LIMIT (sr_top subreddit))
               else if sortby = ''new'' then Inr (listing ITEM_LIMIT (sr_new subreddit))
               else if sortby = ''controversial'' then
                 Inr (listing ITEM_LIMIT (sr_controversial subreddit))
               else Inl (ValueError (''Bad value for sortby: \"'' @ sortby @ ''\".''))) of
           Inl e \<Rightarrow> Inl e
         | Inr submissions \<Rightarrow>
             (let lines = (if generator_truth submissions then lines
                           else lines @ [''There's nothing here!''])
              in extend_summaries (submission_summary E) (yields submissions) lines))"

definition display_submission :: "env \<Rightarrow> string \<Rightarrow> error + string list" where
  "display_submission E submission_id =
     (let submission = reddit_submission E submission_id;
          timestamp = date_time E (sm_created_utc submission) (Some (sm_edited submission)) False;
          comments = take ITEM_LIMIT (sm_comments submission);
          total_comments = length (sm_comments submission);
          showing_comments = length comments;
          lines = [''# '' @ sm_title submission,
                   ''=> '' @ sm_url submission,
                   ''created by '' @ author (sm_author submission) @ '' on '' @ timestamp,
                   str_int (sm_score submission) @ '' upvotes, '' @ str_nat total_comments @
                     '' top-level comments (showing '' @ str_nat showing_comments @ '')'',
                   '''']
      in case (if sm_selftext submission \<noteq> [] then
                 (case parse_markdown E (sm_selftext submission) of
                    Inl e \<Rightarrow> Inl e
                  | Inr body \<Rightarrow> Inr (lines @ body @ ['''']))
               else Inr lines) of
           Inl e \<Rightarrow> Inl e
         | Inr lines \<Rightarrow>
             (let lines = lines @ ['''', ''# Comments'', '''']
              in if comments = [] then Inr (lines @ [''There's nothing here!''])
                 else extend_summaries (\<lambda>c. comment_summary E c True) comments lines))"

definition display_comment :: "env \<Rightarrow> string \<Rightarrow> error + string list" where
  "display_comment E comment_id =
     (let comment = reddit_comment E comment_id;
          author_name = author (c_author comment);
          timestamp = date_time E (c_created_utc comment) (Some (c_edited comment)) False
      in case parse_markdown E (c_body comment) of
           Inl e \<Rightarrow> Inl e
         | Inr body \<Rightarrow>
             (let replies = take ITEM_LIMIT (c_replies comment);
                  total_replies = length (c_replies comment);
                  showing_replies = length replies
              in case get_submission_url E comment of
                   Inl e \<Rightarrow> Inl e
                 | Inr submission_url \<Rightarrow>
                     (let lines =
                            [''# Comment by '' @ author_name @ '' on '' @ timestamp,
                             str_int (c_score comment) @ '' upvotes, '' @ str_nat total_replies @
                               '' direct replies (showing '' @ str_nat showing_replies @ '')'',
                             ''=> '' @ submission_url @ '' View submission: '' @
                               c_submission_title comment]
                      in case get_parent_url E comment of
                           Inl e \<Rightarrow> Inl e
                         | Inr (parent_url, is_submission) \<Rightarrow>
                             (let lines =
                                    (if is_submission then lines
                                     else lines @ [''=> '' @ parent_url @ '' View parent comment'']);
                                  lines = lines @ [''''] @ body @ ['''', '''', ''# Replies'', '''']
                              in if replies = [] then Inr (lines @ [''There's nothing here!''])
                                 else extend_summaries (\<lambda>c. comment_summary E c True)
                                        replies lines))))"

definition display_redditor :: "env \<Rightarrow> string \<Rightarrow> error + string list" where
  "display_redditor E name =
     (let redditor = reddit_redditor E name;
          lines = [''# Redditor: '' @ rd_name redditor]
      in if rd_is_suspended redditor = Some True then
           Inr (lines @ [''User is banned or suspended.''])
         else
           (let timestamp = date_time E (rd_created_utc redditor) None True;
                lines = lines @
                  [''Redditor since '' @ timestamp @ '' ('' @ str_int (rd_link_karma redditor) @
                     '' link karma, '' @ str_int (rd_comment_karma redditor) @ '' comment karma)'',
                   ''''];
                lines = lines @ [''# Submissions'', ''''];
                submissions = listing ITEM_LIMIT (rd_submissions redditor)
            in case (if generator_truth submissions then
                       extend_summaries (submission_summary E) (yields submissions) lines
                     else Inr (lines @ [''User has no submissions.'', ''''])) of
                 Inl e \<Rightarrow> Inl e
               | Inr lines \<Rightarrow>
                   (let lines = lines @ [''# Comments'', ''''];
                        comments = listing ITEM_LIMIT (rd_comments redditor)
                    in if generator_truth comments then
                         extend_summaries (\<lambda>c. comment_summary E c False) (yields comments) lines
                       else Inr (lines @ [''User has no comments.'', '''']))))"

text \<open>The router as the module runs it: its branches call the module's own formatters.\<close>

definition remini_pages :: "env \<Rightarrow> pages" where
  "remini_pages E =
     \<lparr>page_comment = display_comment E, page_submission = display_submission E,
      page_subreddit = display_subreddit E, page_redditor = display_redditor E\<rparr>"

subsection \<open>An environment for the worked examples\<close>

text \<open>
  The closed examples below need one concrete environment.  Its \<open>unquote\<close> is
  \<^verbatim>\<open>urllib.parse.unquote\<close> on strings whose escapes are all below \<^verbatim>\<open>%80\<close>: an escape is \<^verbatim>\<open>%\<close>
  followed by two hexadecimal digits, and any other \<^verbatim>\<open>%\<close> is kept.  (An escape from \<^verbatim>\<open>%80\<close> up is
  decoded by Python as part of a UTF-8 sequence; the examples use none.)
\<close>

definition hex_digit :: "char \<Rightarrow> nat option" where
  "hex_digit c = map_of (zip ''0123456789abcdefABCDEF''
     [0, 1, 2, 3, 4, 5, 6, 7, 8, 9, 10, 11, 12, 13, 14, 15, 10, 11, 12, 13, 14, 15]) c"

fun percent_decode :: "string \<Rightarrow> string" where
  "percent_decode (c # h # l # rest) =
     (if c = CHR ''%'' then
        (case hex_digit h of
           None \<Rightarrow> c # percent_decode (h # l # rest)
         | Some a \<Rightarrow>
             (case hex_digit l of
                None \<Rightarrow> c # percent_decode (h # l # rest)
              | Some b \<Rightarrow> char_of (16 * a + b) # percent_decode rest))
      else c # percent_decode (h # l # rest))"
| "percent_decode s = s"

text \<open>
  Its \<open>urlparse\<close> follows \<^verbatim>\<open>urllib.parse.urlparse\<close> on URLs without leading blanks, without
  control characters, without \<^verbatim>\<open>;\<close> parameters and without brackets (on which the library
  strips, cuts or raises): a scheme is a letter followed by letters, digits, \<^verbatim>\<open>+\<close>, \<^verbatim>\<open>-\<close> or
  \<^verbatim>\<open>.\<close> up to the first colon; a network location follows \<^verbatim>\<open>//\<close> up to the next \<^verbatim>\<open>/\<close>, \<^verbatim>\<open>?\<close> or
  \<^verbatim>\<open>#\<close>; the fragment is cut at \<^verbatim>\<open>#\<close> and the query at \<^verbatim>\<open>?\<close>.
\<close>

definition ascii_lower :: "char \<Rightarrow> char" where
  "ascii_lower c =
     (case map_of (zip ''ABCDEFGHIJKLMNOPQRSTUVWXYZ'' ''abcdefghijklmnopqrstuvwxyz'') c of
        Some l \<Rightarrow> l
      | None \<Rightarrow> c)"

definition ascii_alpha :: "char \<Rightarrow> bool" where
  "ascii_alpha c = (c \<in> set ''abcdefghijklmnopqrstuvwxyzABCDEFGHIJKLMNOPQRSTUVWXYZ'')"

definition scheme_char :: "char \<Rightarrow> bool" where
  "scheme_char c = (ascii_alpha c \<or> c \<in> set ''0123456789+-.'')"

definition std_urlparse :: "string \<Rightarrow> parse_result" where
  "std_urlparse url0 =
     (let pre = takeWhile (\<lambda>c. c \<noteq> CHR '':'') url0;
          has_scheme = (length pre < length url0 \<and> pre \<noteq> [] \<and> ascii_alpha (hd pre) \<and>
                        list_all scheme_char pre);
          scheme = (if has_scheme then map ascii_lower pre else []);
          url = (if has_scheme then drop (Suc (length pre)) url0 else url0);
          has_netloc = (take 2 url = ''//'');
          netloc = (if has_netloc then takeWhile (\<lambda>c. c \<notin> set ''/?#'') (drop 2 url) else []);
          url = (if has_netloc then dropWhile (\<lambda>c. c \<notin> set ''/?#'') (drop 2 url) else url);
          url = takeWhile (\<lambda>c. c \<noteq> CHR ''#'') url
      in \<lparr>pr_scheme = scheme, pr_netloc = netloc,
          pr_path = takeWhile (\<lambda>c. c \<noteq> CHR ''?'') url,
          pr_query = drop 1 (dropWhile (\<lambda>c. c \<noteq> CHR ''?'') url)\<rparr>)"

text \<open>\<^verbatim>\<open>strftime\<close> at the epoch, the creation time of every object of the examples.\<close>

definition epoch_strftime :: "string \<Rightarrow> int \<Rightarrow> string" where
  "epoch_strftime fmt t = (if fmt = DATE_FMT then ''01/01/1970'' else ''01/01/1970 at 00:00 UTC'')"

definition a_submission :: submission where
  "a_submission =
     \<lparr>sm_title = ''Post'', sm_url = ''https://example.com/a'',
      sm_permalink = ''/r/test/comments/abc/post/'', sm_author = Some ''alice'',
      sm_created_utc = 0, sm_edited = False, sm_score = 7, sm_num_comments = 2,
      sm_selftext = '''', sm_comments = []\<rparr>"

definition a_comment :: comment where
  "a_comment =
     Comment (Some ''bob'') 0 False ''hi'' ''/r/test/comments/abc/post/def/'' ''t1_t1abc'' 3
       ''Post'' []"

definition demo_subreddit :: "string \<Rightarrow> subreddit" where
  "demo_subreddit name =
     \<lparr>sr_display_name = name, sr_created_utc = 0, sr_subscribers = 5,
      sr_hot = (if name = ''empty'' then [] else replicate 11 a_submission),
      sr_top = [], sr_new = [], sr_controversial = []\<rparr>"

definition demo_submission :: "string \<Rightarrow> submission" where
  "demo_submission submission_id = a_submission\<lparr>sm_comments := replicate 26 a_comment\<rparr>"

definition demo_comment :: "string \<Rightarrow> comment" where
  "demo_comment comment_id =
     Comment (Some ''bob'') 0 False ''hi'' ''/r/test/comments/abc/post/def/'' ''t1_t1abc'' 3
       ''Post'' (replicate 26 a_comment)"

definition demo_redditor :: "string \<Rightarrow> redditor" where
  "demo_redditor name =
     \<lparr>rd_name = name,
      rd_is_suspended = (if name = ''gone'' then Some True else None),
      rd_created_utc = 0, rd_link_karma = 1, rd_comment_karma = 2,
      rd_submissions = [], rd_comments = []\<rparr>"

text \<open>The converter of the examples returns its input: their texts are plain lines and
  heading lines, which need no conversion.\<close>

definition demo :: env where
  "demo =
     \<lparr>BASE_URL = ''gemini://example.org/remini/'', LANDING_PAGE = None,
      read_lines = (\<lambda>_. None), unquote = percent_decode, urlparse = std_urlparse,
      md2gemini = (\<lambda>md. md), strftime = epoch_strftime,
      reddit_subreddit = demo_subreddit, reddit_submission = demo_submission,
      reddit_comment = demo_comment, reddit_redditor = demo_redditor\<rparr>"



section \<open>Properties\<close>

subsection \<open>Basic facts about the string methods\<close>

lemma str_split_not_Nil: "str_split sep s \<noteq> []"
  by (induction s) (auto split: list.splits)

lemma hd_str_split_Nil_iff: "hd (str_split c s) = [] \<longleftrightarrow> s = [] \<or> hd s = c"
  by (cases s) (auto split: list.splits)

lemma str_split_snoc_sep: "str_split c (s @ [c]) = str_split c s @ [[]]"
  by (induction s) (auto simp: str_split_not_Nil split: list.splits)

lemma str_split_single_Nil_iff: "str_split c s = [[]] \<longleftrightarrow> s = []"
  by (cases s) (auto simp: str_split_not_Nil split: list.splits)

lemma last_str_split_Nil_iff: "last (str_split c s) = [] \<longleftrightarrow> s = [] \<or> last s = c"
proof (induction s)
  case Nil
  then show ?case by simp
next
  case (Cons x s)
  then show ?case
    using str_split_single_Nil_iff[of c s]
    by (cases "str_split c s") (auto simp: str_split_not_Nil split: if_splits list.splits)
qed

lemma str_strip_chars_ends:
  assumes "str_strip_chars cs s \<noteq> []"
  shows "hd (str_strip_chars cs s) \<notin> set cs \<and> last (str_strip_chars cs s) \<notin> set cs"
proof -
  define P where "P = (\<lambda>c. c \<in> set cs)"
  define u where "u = dropWhile P s"
  define v where "v = dropWhile P (rev u)"
  have r: "str_strip_chars cs s = rev v"
    by (simp add: str_strip_chars_def str_rstrip_def str_lstrip_def P_def u_def v_def)
  with assms have v: "v \<noteq> []" by simp
  then have "\<not> P (hd v)" unfolding v_def by (rule hd_dropWhile)
  then have a: "\<not> P (last (rev v))" using v by (simp add: last_rev)
  have "u \<noteq> []" using v by (auto simp: v_def)
  then have pu: "\<not> P (hd u)" unfolding u_def by (rule hd_dropWhile)
  obtain w where "rev u = w @ v" unfolding v_def by (metis takeWhile_dropWhile_id)
  then have "last v = last (rev u)" using v by simp
  then have "hd (rev v) = hd u" using v \<open>u \<noteq> []\<close> by (simp add: hd_rev last_rev)
  with pu a show ?thesis by (simp add: r P_def)
qed

subsection \<open>Facts about the responses and the loop of the formatters\<close>

lemma ok_not_bad_request: "ok ls j \<noteq> bad_request msg"
  by (simp add: ok_def bad_request_def Let_def)

lemma redirect_not_bad_request: "redirect u p \<noteq> bad_request msg"
  by (simp add: redirect_def bad_request_def)

lemma get_input_not_bad_request: "get_input m \<noteq> bad_request msg"
  by (simp add: get_input_def bad_request_def)

lemmas response_distinct =
  ok_not_bad_request redirect_not_bad_request get_input_not_bad_request

lemma ok_page_Inr: "\<not> isl r \<Longrightarrow> ok_page r = Inr (PyBytes (ok (projr r) True))"
  by (cases r) (simp_all add: ok_page_def)

lemma handle_request_check_only_pages:
  "handle_request E D path query True = handle_request E D' path query True"
  by (simp add: handle_request_def handle_r_def handle_u_def Let_def
           split: sum.splits list.splits)

lemma extend_summaries_replicate:
  "f x = Inr r \<Longrightarrow>
   extend_summaries f (replicate n x) acc = Inr (acc @ concat (replicate n (r @ [''''])))"
  by (induction n arbitrary: acc) simp_all

subsection \<open>The example environment, evaluated\<close>

lemma demo_reddit_fields:
  "reddit_subreddit demo = demo_subreddit" "reddit_redditor demo = demo_redditor"
  "reddit_submission demo = demo_submission" "reddit_comment demo = demo_comment"
  "LANDING_PAGE demo = None"
  by (simp_all add: demo_def)

lemma demo_submission_summary:
  "submission_summary demo a_submission =
     Inr [''=> https://example.com/a Post'',
          ''created by alice on 01/01/1970 at 00:00 UTC - 7 upvotes (https, example.com)'',
          ''=> gemini://example.org/remini/r/test/comments/abc/post/ 2 comments'']"
  by code_simp

lemma demo_comment_summary:
  "comment_summary demo a_comment True =
     Inr [''=> gemini://example.org/remini/r/test/comments/abc/post/def/ Comment by bob at 01/01/1970 at 00:00 UTC'',
          ''3 upvotes, 0 direct replies'', '''', ''hi'']"
  by code_simp

lemma demo_display_comment_ok: "\<not> isl (display_comment demo x)"
proof -
  have "display_comment demo x = display_comment demo []"
    by (simp add: display_comment_def demo_def demo_comment_def)
  moreover have "\<not> isl (display_comment demo [])"
    by code_simp
  ultimately show ?thesis by simp
qed

lemma demo_display_submission_ok: "\<not> isl (display_submission demo x)"
proof -
  have "display_submission demo x = display_submission demo []"
    by (simp add: display_submission_def demo_def demo_submission_def)
  moreover have "\<not> isl (display_submission demo [])"
    by code_simp
  ultimately show ?thesis by simp
qed

lemma demo_display_subreddit_ok: "\<not> isl (display_subreddit demo x ''hot'' 10)"
  by (simp add: display_subreddit_def demo_reddit_fields demo_subreddit_def Let_def listing_def
      generator_truth_def
      extend_summaries_replicate[of "submission_summary demo" a_submission,
        OF demo_submission_summary])

lemma demo_display_redditor_ok: "\<not> isl (display_redditor demo x)"
  by (simp add: display_redditor_def demo_reddit_fields demo_redditor_def Let_def listing_def
      generator_truth_def)

subsection \<open>The router: check-only mode against live dispatch\<close>

lemma request_tokens_error: "request_tokens E p = Inl e \<Longrightarrow> e = IndexError"
  by (simp add: request_tokens_def Let_def split: if_splits)

lemma ok_page_not_bad_request: "ok_page r \<noteq> Inr (PyBytes (bad_request msg))"
  by (cases r) (simp_all add: ok_page_def response_distinct)

lemma handle_r_supported:
  assumes "\<And>x. \<not> isl (page_comment D x)"
    and "\<And>x. \<not> isl (page_submission D x)"
    and "\<And>x. \<not> isl (page_subreddit D x ''hot'' 10)"
  shows "handle_r E D tokens path query True = Inr (PyBool True) \<longleftrightarrow>
            (\<exists>b. handle_r E D tokens path query False = Inr (PyBytes b) \<and>
                 (\<forall>msg. b \<noteq> bad_request msg))"
  using assms
  by (auto simp add: handle_r_def Let_def ok_page_Inr response_distinct)

lemma handle_r_unsupported:
  "handle_r E D tokens path query True = Inr (PyBool False) \<longleftrightarrow>
     (\<exists>msg. handle_r E D tokens path query False = Inr (PyBytes (bad_request msg)))"
  by (auto simp add: handle_r_def Let_def ok_page_not_bad_request response_distinct)

lemma handle_r_check_only_returns: "handle_r E D tokens path query True \<noteq> Inl e"
  by (simp add: handle_r_def Let_def)

lemma handle_u_supported:
  assumes "\<And>x. \<not> isl (page_redditor D x)"
  shows "handle_u E D tokens path query True = Inr (PyBool True) \<longleftrightarrow>
            (\<exists>b. handle_u E D tokens path query False = Inr (PyBytes b) \<and>
                 (\<forall>msg. b \<noteq> bad_request msg))"
  using assms
  by (auto simp add: handle_u_def Let_def ok_page_Inr response_distinct)

lemma handle_u_unsupported:
  "handle_u E D tokens path query True = Inr (PyBool False) \<longleftrightarrow>
     (\<exists>msg. handle_u E D tokens path query False = Inr (PyBytes (bad_request msg)))"
  by (auto simp add: handle_u_def Let_def ok_page_not_bad_request response_distinct)

lemma handle_u_check_only_returns: "handle_u E D tokens path query True \<noteq> Inl e"
  by (simp add: handle_u_def Let_def)

text \<open>
  Claim C1.  Check-only/live agreement, for every environment, path and query.
  \<^item> \<^verbatim>\<open>handle_request\<close> with \<^verbatim>\<open>check_only=True\<close> returns \<open>True\<close> exactly when the same call with
    \<^verbatim>\<open>check_only=False\<close> returns a response that is not a bad-request response.  Which
    response a supported branch returns is up to the router's collaborators, so this part is
    for formatters that return their page and a landing page file that can be read.
  \<^item> It returns \<open>False\<close> exactly when the live call returns a bad-request response, whatever
    the collaborators do.
  \<^item> Where it raises (the token list came out empty) the live call raises the same
    \<^verbatim>\<open>IndexError\<close>: neither call selects a branch.
\<close>

theorem check_only_live_agreement:
  "((\<forall>x. \<not> isl (page_comment D x)) \<and> (\<forall>x. \<not> isl (page_submission D x)) \<and>
    (\<forall>x. \<not> isl (page_subreddit D x ''hot'' 10)) \<and> (\<forall>x. \<not> isl (page_redditor D x)) \<and>
    (\<forall>f. LANDING_PAGE E = Some f \<and> f \<noteq> [] \<longrightarrow> read_lines E f \<noteq> None) \<longrightarrow>
      (handle_request E D path query True = Inr (PyBool True) \<longleftrightarrow>
         (\<exists>b. handle_request E D path query False = Inr (PyBytes b) \<and>
              (\<forall>msg. b \<noteq> bad_request msg)))) \<and>
   (handle_request E D path query True = Inr (PyBool False) \<longleftrightarrow>
      (\<exists>msg. handle_request E D path query False = Inr (PyBytes (bad_request msg)))) \<and>
   (handle_request E D path query True = Inl e \<longrightarrow>
      e = IndexError \<and> handle_request E D path query False = Inl IndexError)"
proof -
  define p where "p = str_strip_chars ''/'' (str_strip path)"
  show ?thesis
  proof (cases "p = []")
    case True
    then show ?thesis
      by (auto simp add: handle_request_def Let_def p_def[symmetric] response_distinct
          split: option.splits)
  next
    case False
    show ?thesis
    proof (cases "request_tokens E p")
      case (Inl e')
      with False request_tokens_error[OF Inl] show ?thesis
        by (simp add: handle_request_def Let_def p_def[symmetric])
    next
      case (Inr tokens)
      show ?thesis
      proof (cases tokens)
        case Nil
        with False Inr show ?thesis
          by (simp add: handle_request_def Let_def p_def[symmetric])
      next
        case (Cons cmd rest)
        note facts = handle_r_supported[of D E rest p query]
          handle_u_supported[of D E rest p query]
          handle_r_unsupported[of E D rest p query]
          handle_u_unsupported[of E D rest p query]
          handle_r_check_only_returns[of E D rest p query e]
          handle_u_check_only_returns[of E D rest p query e]
        from False Inr Cons facts show ?thesis
          by (auto simp add: handle_request_def Let_def p_def[symmetric] response_distinct)
      qed
    qed
  qed
qed

theorem check_only_live_agreement_witness:
  "handle_request demo (remini_pages demo) ''/r/test'' '''' True = Inr (PyBool True) \<and>
   (\<exists>b. handle_request demo (remini_pages demo) ''/r/test'' '''' False = Inr (PyBytes b) \<and>
        (\<forall>msg. b \<noteq> bad_request msg)) \<and>
   handle_request demo (remini_pages demo) ''/x/y'' '''' True = Inr (PyBool False) \<and>
   (\<exists>msg. handle_request demo (remini_pages demo) ''/x/y'' '''' False =
      Inr (PyBytes (bad_request msg))) \<and>
   handle_request demo (remini_pages demo) ''%2F'' '''' True = Inl IndexError \<and>
   handle_request demo (remini_pages demo) ''%2F'' '''' False = Inl IndexError"
proof -
  have t: "handle_request demo (remini_pages demo) ''/r/test'' '''' True = Inr (PyBool True)"
    by code_simp
  have f: "handle_request demo (remini_pages demo) ''/x/y'' '''' True = Inr (PyBool False)"
    by code_simp
  have i: "handle_request demo (remini_pages demo) ''%2F'' '''' True = Inl IndexError"
    by code_simp
  have pages:
    "(\<forall>x. \<not> isl (page_comment (remini_pages demo) x)) \<and>
     (\<forall>x. \<not> isl (page_submission (remini_pages demo) x)) \<and>
     (\<forall>x. \<not> isl (page_subreddit (remini_pages demo) x ''hot'' 10)) \<and>
     (\<forall>x. \<not> isl (page_redditor (remini_pages demo) x)) \<and>
     (\<forall>f. LANDING_PAGE demo = Some f \<and> f \<noteq> [] \<longrightarrow> read_lines demo f \<noteq> None)"
    by (simp add: remini_pages_def demo_display_comment_ok demo_display_submission_ok
          demo_display_subreddit_ok demo_display_redditor_ok demo_reddit_fields)
  from t pages check_only_live_agreement[of "remini_pages demo" demo "''/r/test''" "''''"]
  have 1: "\<exists>b. handle_request demo (remini_pages demo) ''/r/test'' '''' False = Inr (PyBytes b) \<and>
        (\<forall>msg. b \<noteq> bad_request msg)"
    by blast
  from f check_only_live_agreement[of "remini_pages demo" demo "''/x/y''" "''''"]
  have 2: "\<exists>msg. handle_request demo (remini_pages demo) ''/x/y'' '''' False =
      Inr (PyBytes (bad_request msg))"
    by blast
  from i check_only_live_agreement[of "remini_pages demo" demo "''%2F''" "''''" IndexError]
  have 3: "handle_request demo (remini_pages demo) ''%2F'' '''' False = Inl IndexError"
    by blast
  from t f i 1 2 3 show ?thesis by blast
qed

subsection \<open>The token list of a request\<close>

lemma request_tokens_rule:
  assumes "unquote E p \<noteq> []"
  shows "\<exists>ts. request_tokens E p = Inr ts \<and>
           str_split CHR ''/'' (unquote E p) =
             (if hd (unquote E p) = CHR ''/'' then [[]] else []) @ ts @
             (if last (unquote E p) = CHR ''/'' then [[]] else [])"
proof (cases "hd (unquote E p) = CHR ''/''")
  case True
  with assms obtain d' where d: "unquote E p = CHR ''/'' # d'"
    by (cases "unquote E p") auto
  have l: "last (str_split CHR ''/'' d') = [] \<longleftrightarrow> last (unquote E p) = CHR ''/''"
    by (simp add: last_str_split_Nil_iff d)
  show ?thesis
    using l snoc_eq_iff_butlast[of "butlast (str_split CHR ''/'' d')" "[]" "str_split CHR ''/'' d'"]
    by (auto simp add: request_tokens_def Let_def d str_split_not_Nil)
next
  case False
  with assms have h: "hd (str_split CHR ''/'' (unquote E p)) \<noteq> []"
    by (simp add: hd_str_split_Nil_iff)
  have l: "last (str_split CHR ''/'' (unquote E p)) = [] \<longleftrightarrow> last (unquote E p) = CHR ''/''"
    using assms by (simp add: last_str_split_Nil_iff)
  show ?thesis
    using False h l
      snoc_eq_iff_butlast[of "butlast (str_split CHR ''/'' (unquote E p))" "[]"
        "str_split CHR ''/'' (unquote E p)"]
    by (auto simp add: request_tokens_def Let_def str_split_not_Nil)
qed

lemma request_tokens_ends:
  assumes d: "unquote E p \<noteq> []"
    and ts: "request_tokens E p = Inr ts"
  shows "(ts = [] \<longleftrightarrow> unquote E p = ''/'') \<and>
         (take 2 (unquote E p) \<noteq> ''//'' \<and> last_two (unquote E p) \<noteq> ''//'' \<and> ts \<noteq> [] \<longrightarrow>
            hd ts \<noteq> [] \<and> last ts \<noteq> [])"
proof -
  define u where "u = unquote E p"
  define pre :: "string list" where "pre = (if hd u = CHR ''/'' then [[]] else [])"
  define post :: "string list" where "post = (if last u = CHR ''/'' then [[]] else [])"
  have A: "str_split CHR ''/'' u = pre @ ts @ post"
    using request_tokens_rule[OF d] ts by (simp add: u_def pre_def post_def)
  have u: "u \<noteq> []" using d by (simp add: u_def)
  have e: "ts = [] \<longleftrightarrow> u = ''/''"
  proof
    assume "ts = []"
    with A have s: "str_split CHR ''/'' u = pre @ post" by simp
    have b: "hd u = CHR ''/'' \<and> last u = CHR ''/''"
      using s u str_split_not_Nil[of "CHR ''/''" u] str_split_single_Nil_iff[of "CHR ''/''" u]
      by (auto simp: pre_def post_def split: if_splits)
    then obtain u' where u': "u = CHR ''/'' # u'" using u by (cases u) auto
    with s b have "str_split CHR ''/'' u' = [[]]"
      by (simp add: pre_def post_def)
    then show "u = ''/''" using u' by (simp add: str_split_single_Nil_iff)
  next
    assume "u = ''/''"
    with A show "ts = []" by (simp add: pre_def post_def)
  qed
  have h: "hd ts \<noteq> []" if n: "ts \<noteq> []" and two: "take 2 u \<noteq> ''//''"
  proof (cases "hd u = CHR ''/''")
    case True
    then obtain u' where u': "u = CHR ''/'' # u'" using u by (cases u) auto
    with A have s: "str_split CHR ''/'' u' = ts @ post" by (simp add: pre_def)
    have "u' \<noteq> []" using e n u' by auto
    moreover have "hd u' \<noteq> CHR ''/''"
      using two u' \<open>u' \<noteq> []\<close> by (cases u') auto
    ultimately have "hd (str_split CHR ''/'' u') \<noteq> []" by (simp add: hd_str_split_Nil_iff)
    with s n show ?thesis by simp
  next
    case False
    with u have "hd (str_split CHR ''/'' u) \<noteq> []" by (simp add: hd_str_split_Nil_iff)
    with A False n show ?thesis by (simp add: pre_def)
  qed
  have l: "last ts \<noteq> []" if n: "ts \<noteq> []" and last2: "last_two u \<noteq> ''//''"
  proof (cases "last u = CHR ''/''")
    case True
    then obtain u2 where u2: "u = u2 @ [CHR ''/'']"
      using u by (metis append_butlast_last_id)
    with A have s: "str_split CHR ''/'' u2 = pre @ ts" by (simp add: str_split_snoc_sep post_def)
    have "u2 \<noteq> []" using e n u2 by auto
    moreover have "last u2 \<noteq> CHR ''/''"
    proof
      assume "last u2 = CHR ''/''"
      with \<open>u2 \<noteq> []\<close> obtain u3 where "u2 = u3 @ [CHR ''/'']" by (metis append_butlast_last_id)
      with u2 have "last_two u = ''//''" by (simp add: last_two_def)
      with last2 show False by simp
    qed
    ultimately have "last (str_split CHR ''/'' u2) \<noteq> []" by (simp add: last_str_split_Nil_iff)
    with s n show ?thesis by simp
  next
    case False
    with u have "last (str_split CHR ''/'' u) \<noteq> []" by (simp add: last_str_split_Nil_iff)
    with A False n show ?thesis by (simp add: post_def)
  qed
  from e h l show ?thesis by (simp add: u_def)
qed

lemma no_double_slash:
  assumes "s \<noteq> []" "hd s \<noteq> c" "last s \<noteq> c"
  shows "take 2 s \<noteq> [c, c] \<and> last_two s \<noteq> [c, c] \<and> s \<noteq> [c]"
proof -
  have "take 2 s \<noteq> [c, c]" using assms by (cases s) auto
  moreover have "last_two s \<noteq> [c, c]"
  proof
    assume a: "last_two s = [c, c]"
    have "last (last_two s) = last s"
      using assms(1) by (simp add: last_two_def last_drop)
    with a assms(3) show False by simp
  qed
  moreover have "s \<noteq> [c]" using assms by auto
  ultimately show ?thesis by simp
qed

text \<open>
  Claim C2 (as amended).  For a request path that is not blank, \<^verbatim>\<open>handle_request\<close> strips
  white space and then every leading and trailing \<^verbatim>\<open>/\<close>, percent-decodes what is left (to a
  string \<open>d\<close>, not empty), splits \<open>d\<close> on \<^verbatim>\<open>/\<close> and drops one leading empty token when \<open>d\<close>
  starts with \<^verbatim>\<open>/\<close> and one trailing empty token when \<open>d\<close> ends with \<^verbatim>\<open>/\<close>; every other token is
  kept as it is, and the router dispatches on the resulting list.  The list is empty exactly
  when \<open>d\<close> is the single character \<^verbatim>\<open>/\<close>.  A list that is not empty neither begins nor
  ends with an empty token provided \<open>d\<close> neither begins nor ends with \<^verbatim>\<open>//\<close>; in particular
  for every path that decoding leaves unchanged (a path without escapes), however many
  slashes it starts or ends with.
\<close>

theorem tokenization_rule:
  assumes p: "p = str_strip_chars ''/'' (str_strip path)"
    and ne: "p \<noteq> []"
    and d: "d = unquote E p"
    and dne: "d \<noteq> []"
  shows "\<exists>ts. request_tokens E p = Inr ts \<and>
           str_split CHR ''/'' d =
             (if hd d = CHR ''/'' then [[]] else []) @ ts @
             (if last d = CHR ''/'' then [[]] else []) \<and>
           handle_request E D path query check_only =
             (case ts of
                [] \<Rightarrow> Inl IndexError
              | cmd # rest \<Rightarrow>
                  if cmd = ''r'' then handle_r E D rest p query check_only
                  else if cmd = ''u'' then handle_u E D rest p query check_only
                  else if check_only then Inr (PyBool False)
                  else Inr (PyBytes (bad_request (''Couldn't parse path \"'' @ p @ ''\".'')))) \<and>
           (ts = [] \<longleftrightarrow> d = ''/'') \<and>
           (take 2 d \<noteq> ''//'' \<and> last_two d \<noteq> ''//'' \<and> ts \<noteq> [] \<longrightarrow>
              hd ts \<noteq> [] \<and> last ts \<noteq> []) \<and>
           (d = p \<longrightarrow> ts \<noteq> [] \<and> hd ts \<noteq> [] \<and> last ts \<noteq> [])"
proof -
  from dne d obtain ts where ts: "request_tokens E p = Inr ts"
    and sp: "str_split CHR ''/'' d =
             (if hd d = CHR ''/'' then [[]] else []) @ ts @
             (if last d = CHR ''/'' then [[]] else [])"
    using request_tokens_rule[of E p] by auto
  note ends = request_tokens_ends[of E p ts, folded d, OF dne ts]
  have hr: "handle_request E D path query check_only =
             (case ts of
                [] \<Rightarrow> Inl IndexError
              | cmd # rest \<Rightarrow>
                  if cmd = ''r'' then handle_r E D rest p query check_only
                  else if cmd = ''u'' then handle_u E D rest p query check_only
                  else if check_only then Inr (PyBool False)
                  else Inr (PyBytes (bad_request (''Couldn't parse path \"'' @ p @ ''\".''))))"
    using ne ts by (simp add: handle_request_def Let_def p[symmetric])
  have free: "ts \<noteq> [] \<and> hd ts \<noteq> [] \<and> last ts \<noteq> []" if "d = p"
  proof -
    from str_strip_chars_ends[of "''/''" "str_strip path"] ne p
    have "hd p \<noteq> CHR ''/'' \<and> last p \<noteq> CHR ''/''" by simp
    with ne have "take 2 p \<noteq> ''//'' \<and> last_two p \<noteq> ''//'' \<and> p \<noteq> ''/''"
      using no_double_slash[of p "CHR ''/''"] by simp
    with ends that show ?thesis by simp
  qed
  from ts sp hr ends free show ?thesis by blast
qed

theorem tokenization_rule_witness:
  "\<exists>ts. request_tokens demo ''r/test'' = Inr ts \<and>
        str_split CHR ''/'' ''r/test'' = ts \<and> ts \<noteq> [] \<and> hd ts \<noteq> [] \<and> last ts \<noteq> []"
proof -
  have p: "''r/test'' = str_strip_chars ''/'' (str_strip '' /r/test/ '')"
    by code_simp
  have d: "''r/test'' = unquote demo ''r/test''"
    by code_simp
  from tokenization_rule[OF p _ d, of no_pages "''''" True] show ?thesis
    by auto
qed

text \<open>
  The counterexample to claim C2 as stated: the slashes of \<^verbatim>\<open>%2F%2Fr\<close> appear only after
  decoding, one leading empty token is dropped, and the list still begins with an empty token.
\<close>

theorem leading_empty_token_counterexample:
  "request_tokens demo (str_strip_chars ''/'' (str_strip ''%2F%2Fr'')) = Inr ['''', ''r'']"
  by code_simp


subsection \<open>The URL classifier on a path that decodes to a single slash\<close>

text \<open>
  Claim C3.  The claim is that \<^verbatim>\<open>parse_reddit_url\<close> never raises and at worst returns its
  input.  The code does raise: for the relative URL \<^verbatim>\<open>%2F\<close> the path is not blank, decodes to
  \<^verbatim>\<open>/\<close>, splits into two empty tokens, both are dropped, and \<^verbatim>\<open>tokens[0]\<close> on the empty list
  raises \<^verbatim>\<open>IndexError\<close>, in check-only mode as in live mode.
\<close>

theorem parse_reddit_url_raises:
  "parse_reddit_url demo ''%2F'' = Inl IndexError \<and>
   handle_request demo (remini_pages demo) ''%2F'' '''' True = Inl IndexError \<and>
   request_tokens demo (str_strip_chars ''/'' (str_strip ''%2F'')) = Inr []"
  by code_simp

subsection \<open>The subreddit listing\<close>

text \<open>
  Claim C4.  The claim is that \<^verbatim>\<open>display_subreddit\<close> renders at most \<open>limit\<close> submission
  summaries.  The body never reads \<open>limit\<close>: whatever the caller passes, the listing is
  requested with \<^verbatim>\<open>ITEM_LIMIT\<close>.  With the router's limit of 10 and a subreddit of eleven hot
  submissions, eleven summaries are rendered.
\<close>

theorem display_subreddit_ignores_limit:
  "display_subreddit E name sortby limit = display_subreddit E name sortby 0 \<and>
   length (sr_hot (reddit_subreddit demo ''test'')) = 11 \<and>
   display_subreddit demo ''test'' ''hot'' 10 =
     Inr ([''# Subreddit: test'', ''Created on 01/01/1970. 5 subscribers.'', '''',
           ''## Submissions''] @
          concat (replicate 11
            [''=> https://example.com/a Post'',
             ''created by alice on 01/01/1970 at 00:00 UTC - 7 upvotes (https, example.com)'',
             ''=> gemini://example.org/remini/r/test/comments/abc/post/ 2 comments'',
             '''']))"
proof -
  have "display_subreddit E name sortby limit = display_subreddit E name sortby 0"
    by (simp add: display_subreddit_def)
  moreover have "length (sr_hot (reddit_subreddit demo ''test'')) = 11"
    by (simp add: demo_reddit_fields demo_subreddit_def)
  moreover have "display_subreddit demo ''test'' ''hot'' 10 =
     Inr ([''# Subreddit: test'', ''Created on 01/01/1970. 5 subscribers.'', '''',
           ''## Submissions''] @
          concat (replicate 11
            [''=> https://example.com/a Post'',
             ''created by alice on 01/01/1970 at 00:00 UTC - 7 upvotes (https, example.com)'',
             ''=> gemini://example.org/remini/r/test/comments/abc/post/ 2 comments'',
             '''']))"
    by code_simp
  ultimately show ?thesis by simp
qed

text \<open>
  Claim C5.  The claim is that an empty listing renders a placeholder line.  In
  \<^verbatim>\<open>display_subreddit\<close> and \<^verbatim>\<open>display_redditor\<close> the test is the truth value of a listing
  generator, which is always true: for a subreddit without submissions and a redditor without
  submissions or comments, no placeholder line is rendered.
\<close>

theorem empty_listing_no_placeholder:
  "display_subreddit demo ''empty'' ''hot'' 10 =
     Inr [''# Subreddit: empty'', ''Created on 01/01/1970. 5 subscribers.'', '''',
          ''## Submissions''] \<and>
   display_redditor demo ''nobody'' =
     Inr [''# Redditor: nobody'', ''Redditor since 01/01/1970 (1 link karma, 2 comment karma)'',
          '''', ''# Submissions'', '''', ''# Comments'', '''']"
  by code_simp

subsection \<open>The profile of a suspended account\<close>

text \<open>
  Claim C7.  For a suspended or banned account \<^verbatim>\<open>display_redditor\<close> returns exactly two lines,
  the heading and the suspension notice, without raising; the router's profile branch sends
  them as a success response; and nothing else of the account (creation date, karma,
  submissions, comments) has any influence on the result.
\<close>

theorem suspended_short_circuit:
  assumes "rd_is_suspended (reddit_redditor E name) = Some True"
  shows "display_redditor E name =
           Inr [''# Redditor: '' @ rd_name (reddit_redditor E name),
                ''User is banned or suspended.''] \<and>
         handle_u E (remini_pages E) [name] path query False =
           Inr (PyBytes (ok [''# Redditor: '' @ rd_name (reddit_redditor E name),
                             ''User is banned or suspended.''] True)) \<and>
         display_redditor
           (E\<lparr>strftime := sf,
              reddit_redditor := (\<lambda>n. (reddit_redditor E n)
                \<lparr>rd_created_utc := t, rd_link_karma := k, rd_comment_karma := ck,
                 rd_submissions := ss, rd_comments := cs\<rparr>)\<rparr>) name =
           display_redditor E name"
  using assms
  by (simp add: display_redditor_def handle_u_def remini_pages_def ok_page_def Let_def)

theorem suspended_short_circuit_witness:
  "display_redditor demo ''gone'' = Inr [''# Redditor: gone'', ''User is banned or suspended.''] \<and>
   handle_u demo (remini_pages demo) [''gone''] ''u/gone'' '''' False =
     Inr (PyBytes (ok [''# Redditor: gone'', ''User is banned or suspended.''] True))"
proof -
  have s: "rd_is_suspended (reddit_redditor demo ''gone'') = Some True"
    by (simp add: demo_reddit_fields demo_redditor_def)
  have n: "rd_name (reddit_redditor demo ''gone'') = ''gone''"
    by (simp add: demo_reddit_fields demo_redditor_def)
  from suspended_short_circuit[OF s, of "''u/gone''" "''''"] n show ?thesis
    by simp
qed

subsection \<open>The link to a parent comment\<close>

lemma list_update_last: "xs \<noteq> [] \<Longrightarrow> xs[length xs - 1 := v] = butlast xs @ [v]"
  by (induction xs rule: rev_induct) (simp_all add: list_update_append)

lemma dropWhile_changes:
  assumes "xs \<noteq> []" "P (hd xs)"
  shows "dropWhile P xs \<noteq> xs"
proof -
  from assms obtain x r where xs: "xs = x # r" and px: "P x" by (cases xs) auto
  have le: "length (dropWhile P xs) \<le> length r"
    using xs px length_dropWhile_le[of P r] by simp
  show ?thesis
  proof
    assume "dropWhile P xs = xs"
    with le have "length xs \<le> length r" by simp
    with xs show False by simp
  qed
qed

text \<open>
  Claim C10.  For a comment whose \<^verbatim>\<open>parent_id\<close> is \<^verbatim>\<open>t1_\<close> followed by the parent's ID,
  \<^verbatim>\<open>get_parent_url\<close> replaces the last segment of the comment's permalink by the parent's ID
  stripped of every leading character among \<^verbatim>\<open>t\<close>, \<^verbatim>\<open>1\<close> and \<^verbatim>\<open>_\<close> (not only of the prefix), and
  classifies the URL so formed.  The segment differs from the parent's ID whenever that ID
  begins with one of the three characters, and equals it otherwise.
\<close>

theorem get_parent_url_lstrip:
  assumes "c_parent_id comment = ''t1_'' @ pid"
  shows "get_parent_url E comment =
           (case parse_reddit_url E
                   (str_join ''/''
                      (butlast (str_split CHR ''/'' (str_rstrip ''/'' (c_permalink comment))) @
                       [dropWhile (\<lambda>x. x \<in> set ''t1_'') pid])) of
              Inl e \<Rightarrow> Inl e
            | Inr u \<Rightarrow> Inr (u, False)) \<and>
         (pid \<noteq> [] \<and> hd pid \<in> set ''t1_'' \<longrightarrow> dropWhile (\<lambda>x. x \<in> set ''t1_'') pid \<noteq> pid) \<and>
         (pid = [] \<or> hd pid \<notin> set ''t1_'' \<longrightarrow> dropWhile (\<lambda>x. x \<in> set ''t1_'') pid = pid)"
proof -
  define frs where "frs = str_split CHR ''/'' (str_rstrip ''/'' (c_permalink comment))"
  define P where "P = (\<lambda>x. x \<in> set ''t1_'')"
  have a: "str_lstrip ''t1_'' (c_parent_id comment) = dropWhile P pid"
    by (simp add: str_lstrip_def assms P_def)
  have b: "startswith (c_parent_id comment) ''t1_''"
    by (simp add: startswith_def assms)
  have f: "frs[length frs - 1 := v] = butlast frs @ [v]" for v
    by (rule list_update_last) (simp add: frs_def str_split_not_Nil)
  have g: "get_parent_url E comment =
           (case parse_reddit_url E (str_join ''/'' (butlast frs @ [dropWhile P pid])) of
              Inl e \<Rightarrow> Inl e
            | Inr u \<Rightarrow> Inr (u, False))"
    unfolding get_parent_url_def Let_def frs_def[symmetric]
    by (simp only: b a f if_True)
  have c: "dropWhile P pid \<noteq> pid" if "pid \<noteq> []" "P (hd pid)"
    using that by (rule dropWhile_changes)
  have d: "dropWhile P pid = pid" if "pid = [] \<or> \<not> P (hd pid)"
    using that by (cases pid) auto
  from g c d show ?thesis
    unfolding frs_def P_def by blast
qed

theorem get_parent_url_lstrip_witness:
  "c_parent_id a_comment = ''t1_'' @ ''t1abc'' \<and>
   get_parent_url demo a_comment =
     Inr (''gemini://example.org/remini/r/test/comments/abc/post/abc'', False) \<and>
   dropWhile (\<lambda>x. x \<in> set ''t1_'') ''t1abc'' \<noteq> ''t1abc''"
proof -
  have p: "c_parent_id a_comment = ''t1_'' @ ''t1abc''"
    by (simp add: a_comment_def)
  have g: "get_parent_url demo a_comment =
     Inr (''gemini://example.org/remini/r/test/comments/abc/post/abc'', False)"
    by code_simp
  from get_parent_url_lstrip[OF p, of demo] g show ?thesis
    using p by simp
qed


subsection \<open>Which exceptions can reach the caller\<close>




















subsection \<open>Headings in rendered markdown\<close>

lemma parse_markdown_lines_all2:
  "parse_markdown_lines E ls = Inr out \<Longrightarrow>
   list_all2 (\<lambda>l r. parse_markdown_line E l = Inr r) ls out"
  by (induction ls arbitrary: out) (auto split: sum.splits)

text \<open>
  Claim C9.  The condition of \<^verbatim>\<open>parse_markdown\<close> on heading lines, one marker or two, is the
  same as beginning with \<^verbatim>\<open>#\<close>; every line of the converter's output that begins with \<^verbatim>\<open>#\<close>
  gets one more \<^verbatim>\<open>#\<close> in front, whatever its level, so a line of three markers becomes a line
  of four; and this holds line by line for the whole output of \<^verbatim>\<open>parse_markdown\<close>.
\<close>

theorem heading_marker_prepended:
  "((startswith line ''#'' \<or> startswith line ''##'') \<longleftrightarrow> startswith line ''#'') \<and>
   (startswith line ''#'' \<longrightarrow> parse_markdown_line E line = Inr (''#'' @ line)) \<and>
   parse_markdown_line E (''###'' @ rest) = Inr (''####'' @ rest) \<and>
   (parse_markdown E md = Inr out \<longrightarrow>
      length out = length (str_split CHR 0x0A (md2gemini E md)) \<and>
      (\<forall>i < length out.
         startswith (str_split CHR 0x0A (md2gemini E md) ! i) ''#'' \<longrightarrow>
           out ! i = ''#'' @ str_split CHR 0x0A (md2gemini E md) ! i))"
proof -
  have a: "startswith line ''##'' \<Longrightarrow> startswith line ''#''" for line
    by (cases line) (auto simp: startswith_def)
  have b: "parse_markdown_line E l = Inr (''#'' @ l)" if "startswith l ''#''" for l
    using that by (simp add: parse_markdown_line_def)
  have c: "parse_markdown_line E (''###'' @ rest) = Inr (''####'' @ rest)"
    by (simp add: parse_markdown_line_def startswith_def)
  have d: "length out = length (str_split CHR 0x0A (md2gemini E md)) \<and>
      (\<forall>i < length out.
         startswith (str_split CHR 0x0A (md2gemini E md) ! i) ''#'' \<longrightarrow>
           out ! i = ''#'' @ str_split CHR 0x0A (md2gemini E md) ! i)"
    if "parse_markdown E md = Inr out"
  proof -
    from that have l: "list_all2 (\<lambda>l r. parse_markdown_line E l = Inr r)
        (str_split CHR 0x0A (md2gemini E md)) out"
      by (simp add: parse_markdown_def parse_markdown_lines_all2)
    then have len: "length (str_split CHR 0x0A (md2gemini E md)) = length out"
      by (rule list_all2_lengthD)
    have "out ! i = ''#'' @ str_split CHR 0x0A (md2gemini E md) ! i"
      if "i < length out" "startswith (str_split CHR 0x0A (md2gemini E md) ! i) ''#''" for i
    proof -
      from l that(1) len
      have "parse_markdown_line E (str_split CHR 0x0A (md2gemini E md) ! i) = Inr (out ! i)"
        using list_all2_nthD2[of _ _ out i] by simp
      with b[OF that(2)] show ?thesis by simp
    qed
    with len show ?thesis by simp
  qed
  from a b c d show ?thesis by blast
qed

theorem heading_marker_prepended_witness:
  "startswith ''### Title'' ''#'' \<and>
   parse_markdown_line demo ''### Title'' = Inr ''#### Title'' \<and>
   parse_markdown demo ''## a'' = Inr [''### a'']"
proof -
  have s: "startswith ''### Title'' ''#''"
    by (simp add: startswith_def)
  have m: "parse_markdown demo ''## a'' = Inr [''### a'']"
    by code_simp
  from heading_marker_prepended[of "''### Title''" demo "'' Title''" "''## a''" "[''### a'']"] s m
  show ?thesis by simp
qed

subsection \<open>The cap on rendered items\<close>

lemma extend_summaries_Inr:
  "extend_summaries f xs acc = Inr out \<Longrightarrow>
   \<exists>rs. list_all2 (\<lambda>x r. f x = Inr r) xs rs \<and> out = acc @ concat (map (\<lambda>r. r @ ['''']) rs)"
proof (induction xs arbitrary: acc)
  case Nil
  then show ?case by simp
next
  case (Cons x xs)
  then obtain ls where ls: "f x = Inr ls"
    and rest: "extend_summaries f xs (acc @ ls @ ['''']) = Inr out"
    by (auto split: sum.splits)
  from Cons.IH[OF rest] obtain rs where
    rs: "list_all2 (\<lambda>x r. f x = Inr r) xs rs"
    and out: "out = (acc @ ls @ ['''']) @ concat (map (\<lambda>r. r @ ['''']) rs)"
    by blast
  from ls rs out have "list_all2 (\<lambda>x r. f x = Inr r) (x # xs) (ls # rs) \<and>
      out = acc @ concat (map (\<lambda>r. r @ ['''']) (ls # rs))"
    by simp
  then show ?case by blast
qed

lemma str_nat_25: "str_nat 25 = ''25''"
  by (simp add: str_nat.simps)

text \<open>
  Claim C6.  When a submission has more than 25 top-level comments, the page that
  \<^verbatim>\<open>display_submission\<close> returns consists of its header, whose fourth line reports the true
  total and 25 as the number shown, the self-text if any, and the summaries of exactly the
  first 25 comments, each followed by an empty line.  Likewise for \<^verbatim>\<open>display_comment\<close> and a
  comment with more than 25 direct replies.
\<close>

theorem pagination_cap:
  assumes s: "s = reddit_submission E sid" and c: "c = reddit_comment E cid"
  shows "(25 < length (sm_comments s) \<and> display_submission E sid = Inr lines \<longrightarrow>
           (\<exists>body rendered.
              length rendered = 25 \<and>
              list_all2 (\<lambda>x r. comment_summary E x True = Inr r) (take 25 (sm_comments s))
                rendered \<and>
              lines =
                [''# '' @ sm_title s,
                 ''=> '' @ sm_url s,
                 ''created by '' @ author (sm_author s) @ '' on '' @
                   date_time E (sm_created_utc s) (Some (sm_edited s)) False,
                 str_int (sm_score s) @ '' upvotes, '' @ str_nat (length (sm_comments s)) @
                   '' top-level comments (showing 25)'',
                 ''''] @ body @ ['''', ''# Comments'', ''''] @
                concat (map (\<lambda>r. r @ ['''']) rendered))) \<and>
         (25 < length (c_replies c) \<and> display_comment E cid = Inr lines' \<longrightarrow>
           (\<exists>submission_url parent body rendered.
              length rendered = 25 \<and>
              list_all2 (\<lambda>x r. comment_summary E x True = Inr r) (take 25 (c_replies c))
                rendered \<and>
              parse_markdown E (c_body c) = Inr body \<and>
              length parent \<le> 1 \<and>
              lines' =
                [''# Comment by '' @ author (c_author c) @ '' on '' @
                   date_time E (c_created_utc c) (Some (c_edited c)) False,
                 str_int (c_score c) @ '' upvotes, '' @ str_nat (length (c_replies c)) @
                   '' direct replies (showing 25)'',
                 ''=> '' @ submission_url @ '' View submission: '' @ c_submission_title c] @
                parent @ [''''] @ body @ ['''', '''', ''# Replies'', ''''] @
                concat (map (\<lambda>r. r @ ['''']) rendered)))"
proof (intro conjI impI)
  assume a: "25 < length (sm_comments s) \<and> display_submission E sid = Inr lines"
  define head where "head =
                [''# '' @ sm_title s,
                 ''=> '' @ sm_url s,
                 ''created by '' @ author (sm_author s) @ '' on '' @
                   date_time E (sm_created_utc s) (Some (sm_edited s)) False,
                 str_int (sm_score s) @ '' upvotes, '' @ str_nat (length (sm_comments s)) @
                   '' top-level comments (showing 25)'',
                 '''']"
  from a have gt: "25 < length (sm_comments s)" and ds: "display_submission E sid = Inr lines"
    by simp_all
  from gt have ne: "take 25 (sm_comments s) \<noteq> []" and len: "length (take 25 (sm_comments s)) = 25"
    and mn: "min (length (sm_comments s)) 25 = 25"
    by auto
  define body where "body =
    (if sm_selftext s = [] then [] else projr (parse_markdown E (sm_selftext s)) @ [[]])"
  have ex: "extend_summaries (\<lambda>x. comment_summary E x True) (take 25 (sm_comments s))
           (head @ body @ [[], ''# Comments'', []]) = Inr lines"
  proof (cases "sm_selftext s = []")
    case True
    with ds ne show ?thesis
      by (simp add: display_submission_def Let_def s[symmetric] ITEM_LIMIT_def head_def
          body_def str_nat_25 mn)
  next
    case False
    with ds obtain b where b: "parse_markdown E (sm_selftext s) = Inr b"
      by (cases "parse_markdown E (sm_selftext s)")
         (simp_all add: display_submission_def Let_def s[symmetric])
    with ds False ne show ?thesis
      by (simp add: display_submission_def Let_def s[symmetric] ITEM_LIMIT_def head_def
          body_def str_nat_25 mn)
  qed
  from extend_summaries_Inr[OF ex] obtain rendered where
    r: "list_all2 (\<lambda>x r. comment_summary E x True = Inr r) (take 25 (sm_comments s)) rendered"
    and l: "lines = (head @ body @ ['''', ''# Comments'', '''']) @
              concat (map (\<lambda>r. r @ ['''']) rendered)"
    by blast
  from r len have "length rendered = 25" by (auto dest: list_all2_lengthD)
  with r l show "\<exists>body rendered.
              length rendered = 25 \<and>
              list_all2 (\<lambda>x r. comment_summary E x True = Inr r) (take 25 (sm_comments s))
                rendered \<and>
              lines =
                [''# '' @ sm_title s,
                 ''=> '' @ sm_url s,
                 ''created by '' @ author (sm_author s) @ '' on '' @
                   date_time E (sm_created_utc s) (Some (sm_edited s)) False,
                 str_int (sm_score s) @ '' upvotes, '' @ str_nat (length (sm_comments s)) @
                   '' top-level comments (showing 25)'',
                 ''''] @ body @ ['''', ''# Comments'', ''''] @
                concat (map (\<lambda>r. r @ ['''']) rendered)"
    unfolding head_def by (intro exI[of _ body] exI[of _ rendered]) simp
next
  assume a: "25 < length (c_replies c) \<and> display_comment E cid = Inr lines'"
  from a have gt: "25 < length (c_replies c)" and dc: "display_comment E cid = Inr lines'"
    by simp_all
  from gt have ne: "take 25 (c_replies c) \<noteq> []" and len: "length (take 25 (c_replies c)) = 25"
    and mn: "min (length (c_replies c)) 25 = 25"
    by auto
  from dc obtain body where body: "parse_markdown E (c_body c) = Inr body"
    by (cases "parse_markdown E (c_body c)")
       (simp_all add: display_comment_def Let_def c[symmetric])
  from dc body obtain submission_url where su: "get_submission_url E c = Inr submission_url"
    by (cases "get_submission_url E c")
       (simp_all add: display_comment_def Let_def c[symmetric])
  from dc body su obtain parent_url is_submission where
    pu: "get_parent_url E c = Inr (parent_url, is_submission)"
    by (cases "get_parent_url E c")
       (auto simp add: display_comment_def Let_def c[symmetric])
  define parent where "parent =
    (if is_submission then [] else [''=> '' @ parent_url @ '' View parent comment''])"
  define head where "head =
                [''# Comment by '' @ author (c_author c) @ '' on '' @
                   date_time E (c_created_utc c) (Some (c_edited c)) False,
                 str_int (c_score c) @ '' upvotes, '' @ str_nat (length (c_replies c)) @
                   '' direct replies (showing 25)'',
                 ''=> '' @ submission_url @ '' View submission: '' @ c_submission_title c]"
  from dc body su pu ne have
    ex: "extend_summaries (\<lambda>x. comment_summary E x True) (take 25 (c_replies c))
           (head @ parent @ [''''] @ body @ ['''', '''', ''# Replies'', '''']) = Inr lines'"
    by (cases is_submission)
       (simp_all add: display_comment_def Let_def c[symmetric] ITEM_LIMIT_def head_def
          parent_def str_nat_25 mn)
  from extend_summaries_Inr[OF ex] obtain rendered where
    r: "list_all2 (\<lambda>x r. comment_summary E x True = Inr r) (take 25 (c_replies c)) rendered"
    and l: "lines' = (head @ parent @ [''''] @ body @ ['''', '''', ''# Replies'', '''']) @
              concat (map (\<lambda>r. r @ ['''']) rendered)"
    by blast
  from r len have "length rendered = 25" by (auto dest: list_all2_lengthD)
  moreover have "length parent \<le> 1" by (simp add: parent_def)
  ultimately show "\<exists>submission_url parent body rendered.
              length rendered = 25 \<and>
              list_all2 (\<lambda>x r. comment_summary E x True = Inr r) (take 25 (c_replies c))
                rendered \<and>
              parse_markdown E (c_body c) = Inr body \<and>
              length parent \<le> 1 \<and>
              lines' =
                [''# Comment by '' @ author (c_author c) @ '' on '' @
                   date_time E (c_created_utc c) (Some (c_edited c)) False,
                 str_int (c_score c) @ '' upvotes, '' @ str_nat (length (c_replies c)) @
                   '' direct replies (showing 25)'',
                 ''=> '' @ submission_url @ '' View submission: '' @ c_submission_title c] @
                parent @ [''''] @ body @ ['''', '''', ''# Replies'', ''''] @
                concat (map (\<lambda>r. r @ ['''']) rendered)"
    using r l body unfolding head_def
    by (intro exI[of _ submission_url] exI[of _ parent] exI[of _ body] exI[of _ rendered]) simp
qed

lemma demo_values:
  "reddit_submission demo sid = a_submission\<lparr>sm_comments := replicate 26 a_comment\<rparr>"
  "reddit_comment demo cid =
     Comment (Some ''bob'') 0 False ''hi'' ''/r/test/comments/abc/post/def/'' ''t1_t1abc'' 3
       ''Post'' (replicate 26 a_comment)"
  "date_time demo 0 (Some False) False = ''01/01/1970 at 00:00 UTC''"
  "str_int 7 = ''7''" "str_int 3 = ''3''" "str_nat 26 = ''26''"
  by (simp_all add: demo_reddit_fields demo_submission_def demo_comment_def date_time_def
      demo_def epoch_strftime_def DATE_FMT_def DATETIME_FMT_def str_int_def str_nat.simps)

theorem pagination_cap_witness:
  "length (sm_comments (reddit_submission demo ''abc'')) = 26 \<and>
   (\<exists>body rendered.
      length rendered = 25 \<and>
      display_submission demo ''abc'' =
        Inr ([''# Post'', ''=> https://example.com/a'',
              ''created by alice on 01/01/1970 at 00:00 UTC'',
              ''7 upvotes, 26 top-level comments (showing 25)'', ''''] @
             body @ ['''', ''# Comments'', ''''] @ concat (map (\<lambda>r. r @ ['''']) rendered))) \<and>
   length (c_replies (reddit_comment demo ''def'')) = 26 \<and>
   (\<exists>submission_url parent body rendered.
      length rendered = 25 \<and>
      display_comment demo ''def'' =
        Inr ([''# Comment by bob on 01/01/1970 at 00:00 UTC'',
              ''3 upvotes, 26 direct replies (showing 25)'',
              ''=> '' @ submission_url @ '' View submission: Post''] @
             parent @ [''''] @ body @ ['''', '''', ''# Replies'', ''''] @
             concat (map (\<lambda>r. r @ ['''']) rendered)))"
proof -
  define ls where "ls = projr (display_submission demo ''abc'')"
  define ls' where "ls' = projr (display_comment demo ''def'')"
  have ds: "display_submission demo ''abc'' = Inr ls"
    using demo_display_submission_ok[of "''abc''"] by (simp add: ls_def)
  have dc: "display_comment demo ''def'' = Inr ls'"
    using demo_display_comment_ok[of "''def''"] by (simp add: ls'_def)
  have n: "length (sm_comments (reddit_submission demo ''abc'')) = 26"
    "length (c_replies (reddit_comment demo ''def'')) = 26"
    by (simp_all add: demo_values)
  note cap = pagination_cap[where E = demo and sid = "''abc''" and cid = "''def''"
      and lines = ls and lines' = ls', OF refl refl]
  from cap ds n obtain body rendered where
    "length rendered = 25 \<and>
     ls = [''# Post'', ''=> https://example.com/a'',
              ''created by alice on 01/01/1970 at 00:00 UTC'',
              ''7 upvotes, 26 top-level comments (showing 25)'', ''''] @
             body @ ['''', ''# Comments'', ''''] @ concat (map (\<lambda>r. r @ ['''']) rendered)"
    by (auto simp add: demo_values a_submission_def author_def)
  with ds have 1: "\<exists>body rendered.
      length rendered = 25 \<and>
      display_submission demo ''abc'' =
        Inr ([''# Post'', ''=> https://example.com/a'',
              ''created by alice on 01/01/1970 at 00:00 UTC'',
              ''7 upvotes, 26 top-level comments (showing 25)'', ''''] @
             body @ ['''', ''# Comments'', ''''] @ concat (map (\<lambda>r. r @ ['''']) rendered))"
    by blast
  from cap dc n obtain submission_url parent body' rendered' where
    "length rendered' = 25 \<and>
     ls' = [''# Comment by bob on 01/01/1970 at 00:00 UTC'',
              ''3 upvotes, 26 direct replies (showing 25)'',
              ''=> '' @ submission_url @ '' View submission: Post''] @
             parent @ [''''] @ body' @ ['''', '''', ''# Replies'', ''''] @
             concat (map (\<lambda>r. r @ ['''']) rendered')"
    by (auto simp add: demo_values author_def)
  with dc have 2: "\<exists>submission_url parent body rendered.
      length rendered = 25 \<and>
      display_comment demo ''def'' =
        Inr ([''# Comment by bob on 01/01/1970 at 00:00 UTC'',
              ''3 upvotes, 26 direct replies (showing 25)'',
              ''=> '' @ submission_url @ '' View submission: Post''] @
             parent @ [''''] @ body @ ['''', '''', ''# Replies'', ''''] @
             concat (map (\<lambda>r. r @ ['''']) rendered))"
    by blast
  from n 1 2 show ?thesis by blast
qed


end
